theory Spec2Isabelle
  imports Complex_Main
begin

section \<open>JavaScript numbers\<close>

text \<open>
  Prices, amounts and the quantities derived from them are JavaScript numbers. The model
  keeps the four kinds of value whose comparisons and divisions behave differently in the
  program: a finite number, the two infinities and NaN. Finite values are exact reals, so
  the rounding of the arithmetic and the sign of a zero are idealised; division by zero,
  \<open>Infinity - Infinity\<close> and every comparison with NaN are as in the language.
\<close>

datatype jsnum = Fin real | PInf | NInf | NaN

fun js_neg :: "jsnum \<Rightarrow> jsnum" where
  "js_neg (Fin a) = Fin (- a)"
| "js_neg PInf = NInf"
| "js_neg NInf = PInf"
| "js_neg NaN = NaN"

fun js_add :: "jsnum \<Rightarrow> jsnum \<Rightarrow> jsnum" where
  "js_add (Fin a) (Fin b) = Fin (a + b)"
| "js_add NaN y = NaN"
| "js_add x NaN = NaN"
| "js_add PInf NInf = NaN"
| "js_add NInf PInf = NaN"
| "js_add PInf y = PInf"
| "js_add x PInf = PInf"
| "js_add NInf y = NInf"
| "js_add x NInf = NInf"

definition js_sub :: "jsnum \<Rightarrow> jsnum \<Rightarrow> jsnum" where
  "js_sub x y = js_add x (js_neg y)"

fun js_abs :: "jsnum \<Rightarrow> jsnum" where
  "js_abs (Fin a) = Fin \<bar>a\<bar>"
| "js_abs PInf = PInf"
| "js_abs NInf = PInf"
| "js_abs NaN = NaN"

fun js_div :: "jsnum \<Rightarrow> jsnum \<Rightarrow> jsnum" where
  "js_div (Fin a) (Fin b) =
     (if b = 0 then (if a = 0 then NaN else if 0 < a then PInf else NInf)
      else Fin (a / b))"
| "js_div NaN y = NaN"
| "js_div x NaN = NaN"
| "js_div (Fin a) y = Fin 0"
| "js_div PInf (Fin b) = (if 0 \<le> b then PInf else NInf)"
| "js_div NInf (Fin b) = (if 0 \<le> b then NInf else PInf)"
| "js_div x y = NaN"

fun js_gt :: "jsnum \<Rightarrow> jsnum \<Rightarrow> bool" where
  "js_gt (Fin a) (Fin b) = (b < a)"
| "js_gt NaN y = False"
| "js_gt x NaN = False"
| "js_gt PInf PInf = False"
| "js_gt PInf y = True"
| "js_gt NInf y = False"
| "js_gt x NInf = True"
| "js_gt x PInf = False"

fun js_le :: "jsnum \<Rightarrow> jsnum \<Rightarrow> bool" where
  "js_le (Fin a) (Fin b) = (a \<le> b)"
| "js_le NaN y = False"
| "js_le x NaN = False"
| "js_le NInf y = True"
| "js_le x PInf = True"
| "js_le PInf y = False"
| "js_le x NInf = False"

fun js_floor :: "jsnum \<Rightarrow> jsnum" where
  "js_floor (Fin a) = Fin (of_int \<lfloor>a\<rfloor>)"
| "js_floor x = x"

section \<open>The pivot detector: \<open>calculateMCP\<close>\<close>

text \<open>
  A data point carries a timestamp (milliseconds since the epoch) and a price; a pivot is
  a data point extended with its connection count (\<open>{...pivot, connections}\<close>).
\<close>

record point =
  timestamp :: int
  price :: jsnum

record pivot = point +
  connections :: nat

text \<open>
  \<open>dataPoints.reduce((acc, point) => acc + point.price, 0)\<close> and the average. The sum of
  finite prices is exact here; in the program it is rounded and overflows to \<open>Infinity\<close>
  beyond the largest double. The statements about the detector below are about the
  comparisons with the average and hold for whatever value it takes.
\<close>

definition sumPrices :: "point list \<Rightarrow> jsnum" where
  "sumPrices dataPoints = foldl (\<lambda>acc p. js_add acc (price p)) (Fin 0) dataPoints"

definition avgPrice :: "point list \<Rightarrow> jsnum" where
  "avgPrice dataPoints = js_div (sumPrices dataPoints) (Fin (real (length dataPoints)))"

text \<open>
  The loop \<open>for (let i = 1; i < dataPoints.length; i++)\<close>: the second argument is the
  variable \<open>aboveAvg\<close>, the list is what remains of the series, and the result is what the
  loop pushes onto \<open>pivotPoints\<close>, in the order of the pushes.
\<close>

fun crossovers :: "jsnum \<Rightarrow> bool \<Rightarrow> point list \<Rightarrow> point list" where
  "crossovers avg aboveAvg [] = []"
| "crossovers avg aboveAvg (p # ps) =
     (let currentAboveAvg = js_gt (price p) avg in
      if currentAboveAvg \<noteq> aboveAvg
      then \<lparr>timestamp = timestamp p, price = price p\<rparr> # crossovers avg currentAboveAvg ps
      else crossovers avg aboveAvg ps)"

definition pivotPoints :: "point list \<Rightarrow> point list" where
  "pivotPoints dataPoints =
     (case dataPoints of
        [] \<Rightarrow> []
      | p0 # rest \<Rightarrow>
          crossovers (avgPrice dataPoints) (js_gt (price p0) (avgPrice dataPoints)) rest)"

text \<open>\<open>Math.abs(pivot.price - point.price) / pivot.price\<close>\<close>

definition priceDiff :: "point \<Rightarrow> point \<Rightarrow> jsnum" where
  "priceDiff pv pt = js_div (js_abs (js_sub (price pv) (price pt))) (price pv)"

text \<open>The \<open>forEach\<close> that increments \<open>connectionCount\<close>.\<close>

definition connectionCount :: "point list \<Rightarrow> point \<Rightarrow> nat" where
  "connectionCount dataPoints pv =
     foldl (\<lambda>cnt pt. if js_le (priceDiff pv pt) (Fin (1 / 1000)) then cnt + 1 else cnt)
       0 dataPoints"

definition withConnections :: "point list \<Rightarrow> point \<Rightarrow> pivot" where
  "withConnections dataPoints pv =
     \<lparr>timestamp = timestamp pv, price = price pv,
      connections = connectionCount dataPoints pv\<rparr>"

text \<open>The array \<open>connections\<close> before it is sorted.\<close>

definition candidates :: "point list \<Rightarrow> pivot list" where
  "candidates dataPoints = map (withConnections dataPoints) (pivotPoints dataPoints)"

text \<open>
  \<open>Array.prototype.sort\<close> with a comparator is a stable sort: an element goes before
  another when the comparator is negative, after it when positive, and two elements that
  compare equal keep their order. Here it is insertion from the right end.
\<close>

fun insertBy :: "('a \<Rightarrow> 'a \<Rightarrow> int) \<Rightarrow> 'a \<Rightarrow> 'a list \<Rightarrow> 'a list" where
  "insertBy cmp x [] = [x]"
| "insertBy cmp x (y # ys) =
     (if cmp x y \<le> 0 then x # y # ys else y # insertBy cmp x ys)"

definition sortBy :: "('a \<Rightarrow> 'a \<Rightarrow> int) \<Rightarrow> 'a list \<Rightarrow> 'a list" where
  "sortBy cmp xs = foldr (insertBy cmp) xs []"

text \<open>\<open>(a, b) => b.connections - a.connections\<close>\<close>

definition byConnections :: "pivot \<Rightarrow> pivot \<Rightarrow> int" where
  "byConnections a b = int (connections b) - int (connections a)"

text \<open>
  \<open>calculateMCP\<close> on an array of data points; \<open>None\<close> is \<open>null\<close>. Every caller passes the
  array it has just built from the candles, so the test for a missing argument has no
  counterpart here.
\<close>

definition calculateMCP :: "point list \<Rightarrow> pivot option" where
  "calculateMCP dataPoints =
     (if dataPoints = [] then None
      else case sortBy byConnections (candidates dataPoints) of
             [] \<Rightarrow> None
           | c # cs \<Rightarrow> Some c)"

section \<open>The strategy decision of \<open>/strategy/mcp\<close>\<close>

datatype side = BUY | SELL

text \<open>
  The variables \<open>action\<close>, \<open>orderPrice\<close> and \<open>quantity\<close> of the handler; \<open>None\<close> is
  \<open>null\<close> (the handler answers \<open>HOLD\<close> when \<open>action\<close> is \<open>null\<close>), and \<open>quantity\<close> is only
  computed inside \<open>if (action)\<close>.
\<close>

record decision =
  action :: "side option"
  orderPrice :: "jsnum option"
  quantity :: "jsnum option"

record order_request =
  order_symbol :: string
  order_quantity :: jsnum
  order_side :: side
  order_type :: string
  order_price :: "jsnum option"
  order_validity :: string
  order_disclosedQuantity :: nat
  order_triggerPrice :: "jsnum option"
  order_isAmo :: bool

text \<open>\<open>Math.abs(currentPrice - mcp.price) / mcp.price\<close>\<close>

definition mcpDeviation :: "pivot \<Rightarrow> jsnum \<Rightarrow> jsnum" where
  "mcpDeviation mcp currentPrice = js_div (js_abs (js_sub currentPrice (price mcp))) (price mcp)"

text \<open>\<open>dataPoints.slice(-10)\<close>: the last ten points, or all of them when there are fewer.\<close>

definition recentPoints :: "point list \<Rightarrow> point list" where
  "recentPoints dataPoints = drop (length dataPoints - 10) dataPoints"

definition avgRecentPrice :: "point list \<Rightarrow> jsnum" where
  "avgRecentPrice dataPoints =
     js_div (sumPrices (recentPoints dataPoints))
       (Fin (real (length (recentPoints dataPoints))))"

definition decide :: "pivot \<Rightarrow> jsnum \<Rightarrow> point list \<Rightarrow> jsnum \<Rightarrow> decision" where
  "decide mcp currentPrice dataPoints investmentAmount =
     (let act = (if js_le (mcpDeviation mcp currentPrice) (Fin (5 / 1000))
                 then Some (if js_gt currentPrice (avgRecentPrice dataPoints)
                            then BUY else SELL)
                 else None);
          ordPrice = (if js_le (mcpDeviation mcp currentPrice) (Fin (5 / 1000))
                      then Some currentPrice else None);
          qty = (case act of
                   Some a \<Rightarrow> Some (js_floor (js_div investmentAmount currentPrice))
                 | None \<Rightarrow> None)
      in \<lparr>action = act, orderPrice = ordPrice, quantity = qty\<rparr>)"

text \<open>
  What the handler does with the decision: it calls \<open>orderApi.placeOrder\<close> with a request,
  answers 400 \<open>Investment amount too small for minimum quantity\<close>, or answers \<open>HOLD\<close>.
\<close>

datatype strategy_outcome = PlaceOrder order_request | TooSmall | Hold | NoMCP

definition strategyMCP ::
    "string \<Rightarrow> pivot \<Rightarrow> jsnum \<Rightarrow> point list \<Rightarrow> jsnum \<Rightarrow> strategy_outcome" where
  "strategyMCP symb mcp currentPrice dataPoints investmentAmount =
     (let d = decide mcp currentPrice dataPoints investmentAmount in
      case action d of
        None \<Rightarrow> Hold
      | Some a \<Rightarrow>
          (case quantity d of
             None \<Rightarrow> Hold
           | Some q \<Rightarrow>
               if js_gt q (Fin 0)
               then PlaceOrder
                      \<lparr>order_symbol = symb, order_quantity = q, order_side = a,
                       order_type = ''LIMIT'', order_price = orderPrice d,
                       order_validity = ''DAY'', order_disclosedQuantity = 0,
                       order_triggerPrice = None, order_isAmo = False\<rparr>
               else TooSmall))"

text \<open>
  The handler from the fetched series and quote on: 404 \<open>No MCP found\<close> when the detector
  returns \<open>null\<close>.
\<close>

definition strategyHandler :: "string \<Rightarrow> point list \<Rightarrow> jsnum \<Rightarrow> jsnum \<Rightarrow> strategy_outcome" where
  "strategyHandler symb dataPoints currentPrice investmentAmount =
     (case calculateMCP dataPoints of
        None \<Rightarrow> NoMCP
      | Some mcp \<Rightarrow> strategyMCP symb mcp currentPrice dataPoints investmentAmount)"

section \<open>The token state\<close>

text \<open>
  \<open>authState\<close>: a token is a string or \<open>null\<close>; \<open>expiresAt\<close> is the instant its ISO string
  denotes, in milliseconds since the epoch, or \<open>null\<close>.
\<close>

record auth_state =
  accessToken :: "string option"
  refreshToken :: "string option"
  expiresAt :: "int option"
  isAuthenticated :: bool

text \<open>\<open>!!t\<close> for a token: \<open>null\<close>, \<open>undefined\<close> and the empty string are falsy.\<close>

definition truthy :: "string option \<Rightarrow> bool" where
  "truthy t = (case t of None \<Rightarrow> False | Some str \<Rightarrow> str \<noteq> [])"

text \<open>
  \<open>response.data\<close> of the token endpoint; a field the server left out is \<open>None\<close>. The endpoint
  answers with such a body or the request fails (\<open>axios.post\<close> rejects).
\<close>

record token_response =
  access_token :: "string option"
  refresh_token :: "string option"
  expires_in :: "int option"

datatype remote_error = InvalidGrant | OtherFailure

text \<open>
  The process: the token state, the access token held by the SDK client, the contents of
  the token file (\<open>None\<close> when there is no readable file) and the number of requests posted
  to the token endpoint so far.
\<close>

record server =
  authState :: auth_state
  sdkAccessToken :: "string option"
  tokenFile :: "auth_state option"
  requests :: nat

text \<open>
  What a call reads from outside: the clock at its start, the token endpoint's answers to a
  refresh token and to an authorization code, the clock when the answer arrives, and whether
  the file system accepts a write.
\<close>

record env =
  now :: int
  refreshGrant :: "string option \<Rightarrow> remote_error + token_response"
  codeGrant :: "string \<Rightarrow> remote_error + token_response"
  nowAfter :: int
  fsOk :: bool

definition noTokens :: auth_state where
  "noTokens = \<lparr>accessToken = None, refreshToken = None, expiresAt = None,
               isAuthenticated = False\<rparr>"

text \<open>Startup: \<open>authState\<close> is loaded from the token file when it exists and parses.\<close>

definition loadTokens :: "int \<Rightarrow> auth_state option \<Rightarrow> server" where
  "loadTokens t file =
     (case file of
        None \<Rightarrow> \<lparr>authState = noTokens, sdkAccessToken = None, tokenFile = file, requests = 0\<rparr>
      | Some tokenData \<Rightarrow>
          (let a = tokenData\<lparr>isAuthenticated :=
                     truthy (accessToken tokenData) \<and>
                     (case expiresAt tokenData of None \<Rightarrow> False | Some e \<Rightarrow> t < e)\<rparr>
           in \<lparr>authState = a,
               sdkAccessToken = (if isAuthenticated a then accessToken a else None),
               tokenFile = file, requests = 0\<rparr>))"

text \<open>\<open>saveTokenData\<close>: a failed write is caught and logged.\<close>

definition saveTokenData :: "env \<Rightarrow> server \<Rightarrow> server" where
  "saveTokenData ev s = (if fsOk ev then s\<lparr>tokenFile := Some (authState s)\<rparr> else s)"

text \<open>
  The largest time value of a \<open>Date\<close>, in milliseconds on either side of the epoch.
\<close>

definition maxTime :: int where
  "maxTime = 8640000000000000"

text \<open>
  The state after a token response was taken over, or \<open>None\<close> when
  \<open>new Date(Date.now() + expires_in * 1000).toISOString()\<close> throws a \<open>RangeError\<close>: when
  \<open>expires_in\<close> is not a number, or when the new expiry lies outside the range of a \<open>Date\<close>.
  The assignment to \<open>authState\<close> has not happened then. \<open>expires_in\<close> is a whole number of
  seconds.
\<close>

definition acceptTokens :: "env \<Rightarrow> token_response \<Rightarrow> server \<Rightarrow> server option" where
  "acceptTokens ev d s =
     (case expires_in d of
        None \<Rightarrow> None
      | Some secs \<Rightarrow>
          if maxTime < \<bar>nowAfter ev + secs * 1000\<bar> then None
          else
            (let s1 = s\<lparr>authState :=
                         \<lparr>accessToken = access_token d, refreshToken = refresh_token d,
                          expiresAt = Some (nowAfter ev + secs * 1000),
                          isAuthenticated = True\<rparr>\<rparr>;
                 s2 = s1\<lparr>sdkAccessToken := accessToken (authState s1)\<rparr>
             in Some (saveTokenData ev s2)))"

definition ensureValidToken :: "env \<Rightarrow> server \<Rightarrow> bool \<times> server" where
  "ensureValidToken ev s =
     (if \<not> truthy (refreshToken (authState s)) then (False, s)
      else case expiresAt (authState s) of
        None \<Rightarrow> (False, s)
      | Some e \<Rightarrow>
          if now ev + 5 * 60 * 1000 < e then (True, s)
          else
            (let s1 = s\<lparr>requests := requests s + 1\<rparr> in
             case refreshGrant ev (refreshToken (authState s)) of
               Inl err \<Rightarrow> (False, s1)
             | Inr d \<Rightarrow>
                 (case acceptTokens ev d s1 of
                    None \<Rightarrow> (False, s1)
                  | Some s2 \<Rightarrow> (True, s2))))"

text \<open>
  \<open>/callback\<close>: the status of the answer and the new state. A request without a code is
  answered 400 before anything is posted.
\<close>

definition callback :: "env \<Rightarrow> string option \<Rightarrow> server \<Rightarrow> nat \<times> server" where
  "callback ev code s =
     (case code of
        None \<Rightarrow> (400, s)
      | Some c \<Rightarrow>
          if c = [] then (400, s)
          else
            (let s1 = s\<lparr>requests := requests s + 1\<rparr> in
             case codeGrant ev c of
               Inl err \<Rightarrow> (500, s1)
             | Inr d \<Rightarrow>
                 (case acceptTokens ev d s1 of
                    None \<Rightarrow> (500, s1)
                  | Some s2 \<Rightarrow> (200, s2))))"

text \<open>\<open>/logout\<close>: the token state is cleared and the token file is overwritten with \<open>{}\<close>.\<close>

definition logout :: "env \<Rightarrow> server \<Rightarrow> server" where
  "logout ev s =
     (let s1 = s\<lparr>authState := noTokens\<rparr>
      in if fsOk ev then s1\<lparr>tokenFile := Some noTokens\<rparr> else s1)"

section \<open>Notions of the specification\<close>

text \<open>A series is chronological when its timestamps increase strictly along it.\<close>

definition chronological :: "point list \<Rightarrow> bool" where
  "chronological dataPoints = sorted_wrt (<) (map timestamp dataPoints)"

text \<open>
  The relative distance of a point to a candidate's price,
  \<open>|candidate.price - point.price| / candidate.price\<close>, and the tolerance of 0.1%.
\<close>

definition relativeDistance :: "pivot \<Rightarrow> point \<Rightarrow> jsnum" where
  "relativeDistance candidate pt =
     js_div (js_abs (js_sub (price candidate) (price pt))) (price candidate)"

definition tolerance :: jsnum where
  "tolerance = Fin (1 / 1000)"

text \<open>The series of the specification's scenario: 100, 105, 95, 102, 100, 101.\<close>

definition scenario :: "point list" where
  "scenario =
     [\<lparr>timestamp = 0, price = Fin 100\<rparr>, \<lparr>timestamp = 1, price = Fin 105\<rparr>,
      \<lparr>timestamp = 2, price = Fin 95\<rparr>, \<lparr>timestamp = 3, price = Fin 102\<rparr>,
      \<lparr>timestamp = 4, price = Fin 100\<rparr>, \<lparr>timestamp = 5, price = Fin 101\<rparr>]"

text \<open>
  A strictly increasing and a strictly decreasing series; the order is the program's own
  comparison \<open>>\<close> of two prices.
\<close>

definition strictlyIncreasing :: "point list \<Rightarrow> bool" where
  "strictlyIncreasing dataPoints = sorted_wrt (\<lambda>p q. js_gt (price q) (price p)) dataPoints"

definition strictlyDecreasing :: "point list \<Rightarrow> bool" where
  "strictlyDecreasing dataPoints = sorted_wrt (\<lambda>p q. js_gt (price p) (price q)) dataPoints"

text \<open>
  The invariant of the token state, read at an instant \<open>t\<close>: the flag is set exactly when
  an access token is present and \<open>expiresAt\<close> lies after \<open>t\<close>.
\<close>

definition authInvariant :: "int \<Rightarrow> auth_state \<Rightarrow> bool" where
  "authInvariant t a \<longleftrightarrow>
     (isAuthenticated a \<longleftrightarrow>
        truthy (accessToken a) \<and> (case expiresAt a of None \<Rightarrow> False | Some e \<Rightarrow> t < e))"

text \<open>A token response that carries an access token and a positive lifetime.\<close>

definition goodResponse :: "token_response \<Rightarrow> bool" where
  "goodResponse d \<longleftrightarrow>
     truthy (access_token d) \<and> (case expires_in d of None \<Rightarrow> False | Some secs \<Rightarrow> 0 < secs)"

text \<open>The decision \<open>HOLD\<close>: no action and no order fields.\<close>

definition holdDecision :: decision where
  "holdDecision = \<lparr>action = None, orderPrice = None, quantity = None\<rparr>"

section \<open>Example inputs\<close>

text \<open>
  Two rising series of two points; the second ends at \<open>Infinity\<close>, and so does its average.
\<close>

definition rising :: "point list" where
  "rising = [\<lparr>timestamp = 0, price = Fin 1\<rparr>, \<lparr>timestamp = 1, price = Fin 2\<rparr>]"

definition risingToInfinity :: "point list" where
  "risingToInfinity = [\<lparr>timestamp = 0, price = Fin 1\<rparr>, \<lparr>timestamp = 1, price = PInf\<rparr>]"

text \<open>A token response whose lifetime leads beyond the range of a \<open>Date\<close>.\<close>

definition endlessResponse :: token_response where
  "endlessResponse = \<lparr>access_token = Some ''a3'', refresh_token = Some ''r3'',
                       expires_in = Some 10000000000000\<rparr>"

text \<open>
  A token file whose access token expires at 900000, the process that loaded it at 800000,
  and a process whose state has no refresh token.
\<close>

definition savedTokens :: auth_state where
  "savedTokens = \<lparr>accessToken = Some ''a1'', refreshToken = Some ''r1'',
                  expiresAt = Some 900000, isAuthenticated = True\<rparr>"

definition loggedIn :: server where
  "loggedIn = \<lparr>authState = savedTokens, sdkAccessToken = Some ''a1'',
               tokenFile = Some savedTokens, requests = 0\<rparr>"

definition withoutRefreshToken :: server where
  "withoutRefreshToken =
     \<lparr>authState = \<lparr>accessToken = Some ''a1'', refreshToken = None,
                    expiresAt = Some 5000000, isAuthenticated = True\<rparr>,
      sdkAccessToken = Some ''a1'', tokenFile = None, requests = 0\<rparr>"

text \<open>
  Two surroundings at the instant 1000000: a token endpoint that rejects every grant, and
  one that answers with fresh tokens valid for an hour.
\<close>

definition rejectingEnv :: env where
  "rejectingEnv = \<lparr>now = 1000000, refreshGrant = (\<lambda>rt. Inl InvalidGrant),
                   codeGrant = (\<lambda>c. Inl OtherFailure), nowAfter = 1000500, fsOk = True\<rparr>"

definition grantingEnv :: env where
  "grantingEnv = \<lparr>now = 1000000,
      refreshGrant = (\<lambda>rt. Inr \<lparr>access_token = Some ''a2'', refresh_token = Some ''r2'',
                               expires_in = Some 3600\<rparr>),
      codeGrant = (\<lambda>c. Inr \<lparr>access_token = Some ''a0'', refresh_token = Some ''r0'',
                            expires_in = Some 3600\<rparr>),
      nowAfter = 1000500, fsOk = True\<rparr>"

text \<open>
  The pivot of the series 1, 0, and the specification's scenario of a pivot at 17865.75
  with the current price 17870.
\<close>

definition zeroPivot :: pivot where
  "zeroPivot = \<lparr>timestamp = 1, price = Fin 0, connections = 0\<rparr>"

definition niftyPivot :: pivot where
  "niftyPivot = \<lparr>timestamp = 7, price = Fin (1786575 / 100), connections = 12\<rparr>"

definition niftySeries :: "point list" where
  "niftySeries = [\<lparr>timestamp = 8, price = Fin 17860\<rparr>, \<lparr>timestamp = 9, price = Fin 17868\<rparr>]"

section \<open>The sort and the selected candidate\<close>

lemma insertBy_not_Nil: "insertBy cmp x ys \<noteq> []"
  by (cases ys) auto

lemma sortBy_Cons: "sortBy cmp (x # xs) = insertBy cmp x (sortBy cmp xs)"
  by (simp add: sortBy_def)

lemma sortBy_Nil_iff: "sortBy cmp xs = [] \<longleftrightarrow> xs = []"
  by (cases xs) (simp_all add: sortBy_def insertBy_not_Nil)

lemma hd_insertBy:
  "hd (insertBy cmp x ys) = (if ys = [] \<or> cmp x (hd ys) \<le> 0 then x else hd ys)"
  by (cases ys) auto

lemma hd_sortBy_first_max:
  "xs \<noteq> [] \<Longrightarrow>
   \<exists>pre post. xs = pre @ hd (sortBy byConnections xs) # post \<and>
     (\<forall>c \<in> set pre. connections c < connections (hd (sortBy byConnections xs))) \<and>
     (\<forall>c \<in> set post. connections c \<le> connections (hd (sortBy byConnections xs)))"
proof (induction xs)
  case Nil
  then show ?case by simp
next
  case (Cons x xs)
  let ?h = "hd (sortBy byConnections xs)"
  let ?r = "hd (sortBy byConnections (x # xs))"
  show ?case
  proof (cases "xs = []")
    case True
    then have "?r = x" by (simp add: sortBy_def)
    with True have "x # xs = [] @ ?r # []" by simp
    then show ?thesis by (metis empty_iff list.set(1))
  next
    case False
    from Cons.IH [OF False] obtain pre post where
      split: "xs = pre @ ?h # post" and
      before: "\<forall>c \<in> set pre. connections c < connections ?h" and
      after: "\<forall>c \<in> set post. connections c \<le> connections ?h"
      by blast
    have nonempty: "sortBy byConnections xs \<noteq> []"
      using False by (simp add: sortBy_Nil_iff)
    show ?thesis
    proof (cases "connections ?h \<le> connections x")
      case True
      then have r: "?r = x"
        by (simp add: sortBy_Cons hd_insertBy byConnections_def)
      have "\<forall>c \<in> set xs. connections c \<le> connections x"
      proof
        fix c assume "c \<in> set xs"
        then have "c \<in> set pre \<or> c = ?h \<or> c \<in> set post"
          by (subst (asm) split) auto
        then have "connections c \<le> connections ?h"
          using before after by (auto simp: less_imp_le)
        with True show "connections c \<le> connections x" by simp
      qed
      with r have "x # xs = [] @ ?r # xs \<and> (\<forall>c \<in> set []. connections c < connections ?r)
          \<and> (\<forall>c \<in> set xs. connections c \<le> connections ?r)"
        by simp
      then show ?thesis by blast
    next
      case False
      then have r: "?r = ?h"
        using nonempty by (simp add: sortBy_Cons hd_insertBy byConnections_def)
      have "x # xs = (x # pre) @ ?h # post"
        using split by simp
      moreover have "\<forall>c \<in> set (x # pre). connections c < connections ?h"
        using before False by simp
      ultimately show ?thesis
        using after r by metis
    qed
  qed
qed

lemma candidates_Nil [simp]: "candidates [] = []"
  by (simp add: candidates_def pivotPoints_def)

lemma calculateMCP_hd:
  "calculateMCP dataPoints =
     (if candidates dataPoints = [] then None
      else Some (hd (sortBy byConnections (candidates dataPoints))))"
proof (cases "sortBy byConnections (candidates dataPoints)")
  case Nil
  then have "candidates dataPoints = []" by (simp add: sortBy_Nil_iff)
  then show ?thesis by (simp add: calculateMCP_def sortBy_def)
next
  case (Cons c cs)
  then have "candidates dataPoints \<noteq> []" by (auto simp: sortBy_def)
  moreover from this have "dataPoints \<noteq> []" by auto
  ultimately show ?thesis using Cons by (simp add: calculateMCP_def)
qed

lemma point_rebuild: "\<lparr>timestamp = timestamp p, price = price p\<rparr> = (p::point)"
  by simp

lemma crossovers_subset: "set (crossovers avg ab ps) \<subseteq> set ps"
  by (induction ps arbitrary: ab) (auto simp: Let_def)

lemma crossovers_sorted:
  "sorted_wrt (<) (map timestamp ps) \<Longrightarrow> sorted_wrt (<) (map timestamp (crossovers avg ab ps))"
proof (induction ps arbitrary: ab)
  case Nil
  then show ?case by simp
next
  case (Cons p ps)
  have "\<forall>q \<in> set (crossovers avg b ps). timestamp p < timestamp q" for b
    using Cons.prems crossovers_subset [of avg b ps] by auto
  then show ?case using Cons by (auto simp: Let_def)
qed

lemma connectionCount_filter:
  "connectionCount dataPoints pv =
     length (filter (\<lambda>pt. js_le (priceDiff pv pt) (Fin (1 / 1000))) dataPoints)"
proof -
  have "foldl (\<lambda>cnt pt. if P pt then cnt + 1 else cnt) n xs = n + length (filter P xs)"
    for P :: "point \<Rightarrow> bool" and n :: nat and xs
    by (induction xs arbitrary: n) auto
  then show ?thesis by (simp add: connectionCount_def)
qed

lemma candidates_timestamps:
  "map timestamp (candidates dataPoints) = map timestamp (pivotPoints dataPoints)"
  by (simp add: candidates_def withConnections_def comp_def)

lemma pivotPoints_subset: "set (pivotPoints dataPoints) \<subseteq> set (tl dataPoints)"
  by (cases dataPoints) (simp_all add: pivotPoints_def crossovers_subset)

lemma priceDiff_self: "price pv = Fin a \<Longrightarrow> a \<noteq> 0 \<Longrightarrow> priceDiff pv pv = Fin 0"
  by (simp add: priceDiff_def js_sub_def)

section \<open>Properties of the pivot detector\<close>

lemmas eval_defs = calculateMCP_def candidates_def pivotPoints_def avgPrice_def sumPrices_def
      withConnections_def connectionCount_def priceDiff_def js_sub_def sortBy_def byConnections_def

lemma candidates_scenario:
  "candidates scenario =
     [\<lparr>timestamp = 1, price = Fin 105, connections = 1\<rparr>,
      \<lparr>timestamp = 2, price = Fin 95, connections = 1\<rparr>,
      \<lparr>timestamp = 3, price = Fin 102, connections = 1\<rparr>,
      \<lparr>timestamp = 4, price = Fin 100, connections = 2\<rparr>,
      \<lparr>timestamp = 5, price = Fin 101, connections = 1\<rparr>]"
  by (simp add: scenario_def eval_defs)

lemma calculateMCP_scenario:
  "calculateMCP scenario = Some \<lparr>timestamp = 4, price = Fin 100, connections = 2\<rparr>"
  by (simp add: calculateMCP_hd candidates_scenario sortBy_def byConnections_def)

text \<open>
  Claim C1. For every non-empty series, \<open>calculateMCP\<close> returns none exactly when there is
  no pivot candidate. When it returns a pivot, the list of candidates, in the order of the
  walk, splits around it: every candidate before it has strictly fewer connections and every
  candidate after it has at most as many. So no candidate has more connections, and among
  the candidates with the maximal count it is the first of the walk; when the series is
  chronological it is also the one with the earliest timestamp.
\<close>

theorem calculateMCP_most_connected:
  assumes "dataPoints \<noteq> []"
  shows "(calculateMCP dataPoints = None \<longleftrightarrow> candidates dataPoints = []) \<and>
         (\<forall>r. calculateMCP dataPoints = Some r \<longrightarrow>
            (\<exists>pre post. candidates dataPoints = pre @ r # post \<and>
               (\<forall>c \<in> set pre. connections c < connections r) \<and>
               (\<forall>c \<in> set post. connections c \<le> connections r)) \<and>
            (chronological dataPoints \<longrightarrow>
               (\<forall>c \<in> set (candidates dataPoints).
                  connections c = connections r \<longrightarrow> timestamp r \<le> timestamp c)))"
proof (intro conjI allI impI)
  show "calculateMCP dataPoints = None \<longleftrightarrow> candidates dataPoints = []"
    by (simp add: calculateMCP_hd)
next
  fix r assume "calculateMCP dataPoints = Some r"
  then have ne: "candidates dataPoints \<noteq> []"
    and r: "r = hd (sortBy byConnections (candidates dataPoints))"
    by (auto simp: calculateMCP_hd split: if_splits)
  from hd_sortBy_first_max [OF ne] r
  show "\<exists>pre post. candidates dataPoints = pre @ r # post \<and>
               (\<forall>c \<in> set pre. connections c < connections r) \<and>
               (\<forall>c \<in> set post. connections c \<le> connections r)"
    by simp
next
  fix r assume ret: "calculateMCP dataPoints = Some r" and chrono: "chronological dataPoints"
  then have ne: "candidates dataPoints \<noteq> []"
    and r: "r = hd (sortBy byConnections (candidates dataPoints))"
    by (auto simp: calculateMCP_hd split: if_splits)
  from hd_sortBy_first_max [OF ne] r obtain pre post where
    split: "candidates dataPoints = pre @ r # post" and
    before: "\<forall>c \<in> set pre. connections c < connections r"
    by auto
  have "sorted_wrt (<) (map timestamp (tl dataPoints))"
    using chrono by (cases dataPoints) (simp_all add: chronological_def)
  then have "sorted_wrt (<) (map timestamp (pivotPoints dataPoints))"
    by (cases dataPoints) (simp_all add: pivotPoints_def crossovers_sorted)
  then have "sorted_wrt (<) (map timestamp (pre @ r # post))"
    by (simp only: candidates_timestamps [symmetric] split)
  then have later: "\<forall>c \<in> set post. timestamp r < timestamp c"
    by (simp add: sorted_wrt_append)
  show "\<forall>c \<in> set (candidates dataPoints).
          connections c = connections r \<longrightarrow> timestamp r \<le> timestamp c"
  proof (intro ballI impI)
    fix c assume "c \<in> set (candidates dataPoints)" and eq: "connections c = connections r"
    then have "c \<in> set pre \<or> c = r \<or> c \<in> set post"
      by (simp add: split) blast
    with before later eq show "timestamp r \<le> timestamp c"
      by auto
  qed
qed

theorem calculateMCP_most_connected_witness:
  "scenario \<noteq> [] \<and>
   calculateMCP scenario = Some \<lparr>timestamp = 4, price = Fin 100, connections = 2\<rparr> \<and>
   (\<exists>pre post.
      candidates scenario = pre @ \<lparr>timestamp = 4, price = Fin 100, connections = 2\<rparr> # post \<and>
      (\<forall>c \<in> set pre. connections c < 2) \<and> (\<forall>c \<in> set post. connections c \<le> 2))"
proof -
  have ne: "scenario \<noteq> []" by (simp add: scenario_def)
  from calculateMCP_most_connected [OF ne] calculateMCP_scenario ne
  show ?thesis by simp
qed

text \<open>
  Claim C7. For every series and every pivot candidate of it, the candidate's connection
  count is the number of points of the whole series whose relative distance to the
  candidate's price is at most the tolerance of 0.1%.
\<close>

theorem connections_counts_points_within_tolerance:
  "\<forall>c \<in> set (candidates dataPoints).
     connections c =
       length (filter (\<lambda>pt. js_le (relativeDistance c pt) tolerance) dataPoints)"
  by (auto simp: candidates_def withConnections_def connectionCount_filter
        relativeDistance_def tolerance_def priceDiff_def)

theorem connections_counts_points_within_tolerance_witness:
  "\<lparr>timestamp = 4, price = Fin 100, connections = 2\<rparr> \<in> set (candidates scenario) \<and>
   length (filter (\<lambda>pt. js_le (relativeDistance
       \<lparr>timestamp = 4, price = Fin 100, connections = 2\<rparr> pt) tolerance) scenario) = 2"
proof -
  have mem: "\<lparr>timestamp = 4, price = Fin 100, connections = 2\<rparr> \<in> set (candidates scenario)"
    by (simp add: candidates_scenario)
  from connections_counts_points_within_tolerance [of scenario, rule_format, OF mem] mem
  show ?thesis by simp
qed

text \<open>
  Claim C10, amended. Whenever \<open>calculateMCP\<close> returns a pivot, its timestamp and price are
  those of a data point at an index of at least 1, and its connection count is at least 1
  provided its price is a finite number other than zero. For a price of zero the relative
  distance of the pivot's own point is \<open>0 / 0\<close>, which is NaN and never within the
  tolerance.
\<close>

theorem calculateMCP_returns_later_point:
  assumes "calculateMCP dataPoints = Some r"
  shows "(\<exists>i. 1 \<le> i \<and> i < length dataPoints \<and>
              timestamp r = timestamp (dataPoints ! i) \<and> price r = price (dataPoints ! i)) \<and>
         (\<forall>a. price r = Fin a \<and> a \<noteq> 0 \<longrightarrow> 1 \<le> connections r)"
proof -
  from assms have ne: "candidates dataPoints \<noteq> []"
    and r: "r = hd (sortBy byConnections (candidates dataPoints))"
    by (auto simp: calculateMCP_hd split: if_splits)
  from hd_sortBy_first_max [OF ne] r obtain pre post where
    "candidates dataPoints = pre @ r # post"
    by auto
  then have "r \<in> set (candidates dataPoints)"
    by simp
  then obtain pv where pv: "pv \<in> set (pivotPoints dataPoints)"
    and r_pv: "r = withConnections dataPoints pv"
    by (auto simp: candidates_def)
  from pv pivotPoints_subset have tl: "pv \<in> set (tl dataPoints)" by blast
  then obtain j where j: "j < length (tl dataPoints)" "tl dataPoints ! j = pv"
    by (auto simp: in_set_conv_nth)
  then have "Suc j < length dataPoints" "dataPoints ! Suc j = pv"
    by (cases dataPoints; simp)+
  then have first: "\<exists>i. 1 \<le> i \<and> i < length dataPoints \<and>
              timestamp r = timestamp (dataPoints ! i) \<and> price r = price (dataPoints ! i)"
    using r_pv by (intro exI [of _ "Suc j"]) (simp add: withConnections_def)
  have second: "1 \<le> connections r" if "price r = Fin a" "a \<noteq> 0" for a
  proof -
    from that r_pv have "priceDiff pv pv = Fin 0"
      by (simp add: priceDiff_self withConnections_def)
    then have "js_le (priceDiff pv pv) (Fin (1 / 1000))"
      by simp
    moreover from tl have "pv \<in> set dataPoints"
      by (cases dataPoints) auto
    ultimately have "filter (\<lambda>pt. js_le (priceDiff pv pt) (Fin (1 / 1000))) dataPoints \<noteq> []"
      unfolding filter_empty_conv by blast
    then show ?thesis
      by (simp add: r_pv withConnections_def connectionCount_filter Suc_le_eq)
  qed
  from first second show ?thesis by blast
qed

theorem calculateMCP_returns_later_point_witness:
  "calculateMCP scenario = Some \<lparr>timestamp = 4, price = Fin 100, connections = 2\<rparr> \<and>
   (\<exists>i. 1 \<le> i \<and> i < length scenario \<and> 4 = timestamp (scenario ! i) \<and>
        Fin 100 = price (scenario ! i)) \<and> (1::nat) \<le> 2"
  using calculateMCP_returns_later_point [OF calculateMCP_scenario] calculateMCP_scenario
  by simp

text \<open>
  The series 1, 0 has the average 0.5; the second point crosses it and becomes the only
  candidate, with no connection at all: \<open>|0 - 1| / 0\<close> is infinite and \<open>|0 - 0| / 0\<close> is NaN.
\<close>

theorem zero_price_pivot_counterexample:
  "calculateMCP [\<lparr>timestamp = 0, price = Fin 1\<rparr>, \<lparr>timestamp = 1, price = Fin 0\<rparr>]
     = Some \<lparr>timestamp = 1, price = Fin 0, connections = 0\<rparr>"
  by (simp add: eval_defs)

section \<open>Monotonic series\<close>

lemma js_gt_trans: "js_gt a b \<Longrightarrow> js_gt b c \<Longrightarrow> js_gt a c"
  by (cases a; cases b; cases c) simp_all

lemma crossovers_constant:
  "\<forall>p \<in> set ps. js_gt (price p) avg = ab \<Longrightarrow> crossovers avg ab ps = []"
  by (induction ps) (simp_all add: Let_def)

text \<open>
  Once the walk has left the side it started on it stays on the other side: then it
  records at most one crossover, and none exactly when its last point is on the starting
  side.
\<close>

lemma crossovers_monotone_flags:
  assumes "sorted_wrt (\<lambda>p q. js_gt (price p) avg \<noteq> ab \<longrightarrow> js_gt (price q) avg \<noteq> ab) ps"
  shows "length (crossovers avg ab ps) \<le> 1 \<and>
         (crossovers avg ab ps = [] \<longleftrightarrow> ps = [] \<or> js_gt (price (last ps)) avg = ab)"
  using assms
proof (induction ps)
  case Nil
  then show ?case by simp
next
  case (Cons p ps)
  show ?case
  proof (cases "js_gt (price p) avg = ab")
    case True
    from Cons have "length (crossovers avg ab ps) \<le> 1 \<and>
         (crossovers avg ab ps = [] \<longleftrightarrow> ps = [] \<or> js_gt (price (last ps)) avg = ab)"
      by simp
    with True show ?thesis by (simp add: Let_def)
  next
    case False
    with Cons.prems have others: "\<forall>q \<in> set ps. js_gt (price q) avg = js_gt (price p) avg"
      by auto
    then have "crossovers avg (js_gt (price p) avg) ps = []"
      by (rule crossovers_constant)
    moreover have "js_gt (price (last (p # ps))) avg \<noteq> ab"
      using False others by (cases "ps = []") simp_all
    ultimately show ?thesis using False by (simp add: Let_def)
  qed
qed

lemma monotonic_flags:
  assumes "sorted_wrt (\<lambda>p q. js_gt (price q) (price p)) (p0 # rest) \<or>
           sorted_wrt (\<lambda>p q. js_gt (price p) (price q)) (p0 # rest)"
  shows "sorted_wrt (\<lambda>p q. js_gt (price p) avg \<noteq> js_gt (price p0) avg \<longrightarrow>
                            js_gt (price q) avg \<noteq> js_gt (price p0) avg) rest"
  using assms
proof
  assume "sorted_wrt (\<lambda>p q. js_gt (price q) (price p)) (p0 # rest)"
  then have first: "\<forall>q \<in> set rest. js_gt (price q) (price p0)"
    and inc: "sorted_wrt (\<lambda>p q. js_gt (price q) (price p)) rest"
    by simp_all
  show ?thesis
  proof (rule sorted_wrt_mono_rel [OF _ inc])
    fix x y
    assume "x \<in> set rest" "y \<in> set rest" "js_gt (price y) (price x)"
    with first show "js_gt (price x) avg \<noteq> js_gt (price p0) avg \<longrightarrow>
                     js_gt (price y) avg \<noteq> js_gt (price p0) avg"
      using js_gt_trans by blast
  qed
next
  assume "sorted_wrt (\<lambda>p q. js_gt (price p) (price q)) (p0 # rest)"
  then have first: "\<forall>q \<in> set rest. js_gt (price p0) (price q)"
    and dec: "sorted_wrt (\<lambda>p q. js_gt (price p) (price q)) rest"
    by simp_all
  show ?thesis
  proof (rule sorted_wrt_mono_rel [OF _ dec])
    fix x y
    assume "x \<in> set rest" "y \<in> set rest" "js_gt (price x) (price y)"
    with first show "js_gt (price x) avg \<noteq> js_gt (price p0) avg \<longrightarrow>
                     js_gt (price y) avg \<noteq> js_gt (price p0) avg"
      using js_gt_trans by blast
  qed
qed

lemma monotonic_walk:
  assumes "strictlyIncreasing dataPoints \<or> strictlyDecreasing dataPoints"
  shows "length (crossovers avg (js_gt (price (hd dataPoints)) avg) (tl dataPoints)) \<le> 1 \<and>
         (crossovers avg (js_gt (price (hd dataPoints)) avg) (tl dataPoints) = [] \<longleftrightarrow>
            dataPoints = [] \<or>
            js_gt (price (hd dataPoints)) avg = js_gt (price (last dataPoints)) avg)"
proof (cases dataPoints)
  case Nil
  then show ?thesis by simp
next
  case (Cons p0 rest)
  with assms have "sorted_wrt (\<lambda>p q. js_gt (price q) (price p)) (p0 # rest) \<or>
           sorted_wrt (\<lambda>p q. js_gt (price p) (price q)) (p0 # rest)"
    by (simp only: strictlyIncreasing_def strictlyDecreasing_def)
  then have "sorted_wrt (\<lambda>p q. js_gt (price p) avg \<noteq> js_gt (price p0) avg \<longrightarrow>
                            js_gt (price q) avg \<noteq> js_gt (price p0) avg) rest"
    by (rule monotonic_flags)
  from crossovers_monotone_flags [OF this] Cons show ?thesis
    by (cases "rest = []") auto
qed

text \<open>
  Claim C4, amended. A strictly increasing or strictly decreasing series has at most one
  pivot candidate, whatever value the average takes. \<open>calculateMCP\<close> returns none for it
  exactly when its first and its last point are on the same side of the average, as they
  are in a series of one point; when they are on different sides the single crossover is
  returned as the pivot.
\<close>

theorem monotonic_series_at_most_one_pivot:
  assumes "strictlyIncreasing dataPoints \<or> strictlyDecreasing dataPoints"
  shows "length (candidates dataPoints) \<le> 1 \<and>
         (calculateMCP dataPoints = None \<longleftrightarrow>
            dataPoints = [] \<or>
            js_gt (price (hd dataPoints)) (avgPrice dataPoints) =
              js_gt (price (last dataPoints)) (avgPrice dataPoints)) \<and>
         (\<forall>avg.
            length (crossovers avg (js_gt (price (hd dataPoints)) avg) (tl dataPoints)) \<le> 1 \<and>
            (crossovers avg (js_gt (price (hd dataPoints)) avg) (tl dataPoints) = [] \<longleftrightarrow>
               dataPoints = [] \<or>
               js_gt (price (hd dataPoints)) avg = js_gt (price (last dataPoints)) avg))"
proof -
  have walk: "pivotPoints dataPoints =
      crossovers (avgPrice dataPoints) (js_gt (price (hd dataPoints)) (avgPrice dataPoints))
        (tl dataPoints)"
    by (cases dataPoints) (simp_all add: pivotPoints_def)
  have len: "length (candidates dataPoints) = length (pivotPoints dataPoints)"
    and none: "calculateMCP dataPoints = None \<longleftrightarrow> pivotPoints dataPoints = []"
    by (simp_all add: calculateMCP_hd candidates_def)
  from monotonic_walk [OF assms, of "avgPrice dataPoints"] walk len none
  have "length (candidates dataPoints) \<le> 1"
    and "calculateMCP dataPoints = None \<longleftrightarrow>
            dataPoints = [] \<or>
            js_gt (price (hd dataPoints)) (avgPrice dataPoints) =
              js_gt (price (last dataPoints)) (avgPrice dataPoints)"
    by simp_all
  moreover from monotonic_walk [OF assms]
  have "\<forall>avg.
            length (crossovers avg (js_gt (price (hd dataPoints)) avg) (tl dataPoints)) \<le> 1 \<and>
            (crossovers avg (js_gt (price (hd dataPoints)) avg) (tl dataPoints) = [] \<longleftrightarrow>
               dataPoints = [] \<or>
               js_gt (price (hd dataPoints)) avg = js_gt (price (last dataPoints)) avg)"
    by blast
  ultimately show ?thesis by blast
qed

theorem monotonic_series_at_most_one_pivot_witness:
  "strictlyIncreasing rising \<and> length (candidates rising) \<le> 1 \<and>
   calculateMCP rising \<noteq> None \<and>
   js_gt (price (hd rising)) (avgPrice rising) \<noteq> js_gt (price (last rising)) (avgPrice rising) \<and>
   strictlyIncreasing risingToInfinity \<and> calculateMCP risingToInfinity = None \<and>
   js_gt (price (hd risingToInfinity)) (avgPrice risingToInfinity) =
     js_gt (price (last risingToInfinity)) (avgPrice risingToInfinity)"
proof -
  have inc: "strictlyIncreasing rising"
    by (simp add: rising_def strictlyIncreasing_def)
  have sides: "js_gt (price (hd rising)) (avgPrice rising) \<noteq>
      js_gt (price (last rising)) (avgPrice rising)"
    by (simp add: rising_def avgPrice_def sumPrices_def)
  have ne: "rising \<noteq> []" by (simp add: rising_def)
  have inc': "strictlyIncreasing risingToInfinity"
    by (simp add: risingToInfinity_def strictlyIncreasing_def)
  have sides': "js_gt (price (hd risingToInfinity)) (avgPrice risingToInfinity) =
      js_gt (price (last risingToInfinity)) (avgPrice risingToInfinity)"
    by (simp add: risingToInfinity_def avgPrice_def sumPrices_def)
  from monotonic_series_at_most_one_pivot [OF disjI1 [OF inc]] sides ne
  have "length (candidates rising) \<le> 1" and "calculateMCP rising \<noteq> None"
    by simp_all
  moreover from monotonic_series_at_most_one_pivot [OF disjI1 [OF inc']] sides'
  have "calculateMCP risingToInfinity = None"
    by simp
  ultimately show ?thesis using inc sides inc' sides' by simp
qed

text \<open>
  The series 1, 2 is strictly increasing; its average is 1.5, the first point is not above
  it and the second is, so the second point is returned as the pivot.
\<close>

theorem strictly_increasing_series_counterexample:
  "strictlyIncreasing [\<lparr>timestamp = 0, price = Fin 1\<rparr>, \<lparr>timestamp = 1, price = Fin 2\<rparr>] \<and>
   calculateMCP [\<lparr>timestamp = 0, price = Fin 1\<rparr>, \<lparr>timestamp = 1, price = Fin 2\<rparr>]
     = Some \<lparr>timestamp = 1, price = Fin 2, connections = 1\<rparr>"
  by (simp add: strictlyIncreasing_def eval_defs)

section \<open>Properties of the token state\<close>

lemma loggedIn_loaded: "loadTokens 800000 (Some savedTokens) = loggedIn"
  by (simp add: loadTokens_def savedTokens_def loggedIn_def truthy_def Let_def)

lemma ensureValidToken_failed:
  assumes "refreshGrant ev (refreshToken (authState s)) = Inl err"
  shows "ensureValidToken ev s = (False, s) \<or>
         ensureValidToken ev s = (True, s) \<or>
         ensureValidToken ev s = (False, s\<lparr>requests := requests s + 1\<rparr>)"
  using assms by (simp add: ensureValidToken_def Let_def split: option.splits)

lemma ensureValidToken_attempt_failed:
  assumes "truthy (refreshToken (authState s))" "expiresAt (authState s) = Some e"
    "e \<le> now ev + 300000" "refreshGrant ev (refreshToken (authState s)) = Inl err"
  shows "ensureValidToken ev s = (False, s\<lparr>requests := requests s + 1\<rparr>)"
  using assms by (simp add: ensureValidToken_def Let_def)

text \<open>
  Claim C3. When the request to the token endpoint fails, \<open>ensureValidToken\<close> leaves the
  access token, the refresh token, \<open>expiresAt\<close> and the flag as they were, and the SDK
  client and the token file too; a call that posted the request returns false, which is
  every call on a state with a refresh token whose expiry is not more than five minutes
  away.
\<close>

theorem failed_refresh_keeps_tokens:
  assumes "refreshGrant ev (refreshToken (authState s)) = Inl err"
  shows "authState (snd (ensureValidToken ev s)) = authState s \<and>
         sdkAccessToken (snd (ensureValidToken ev s)) = sdkAccessToken s \<and>
         tokenFile (snd (ensureValidToken ev s)) = tokenFile s \<and>
         (requests (snd (ensureValidToken ev s)) \<noteq> requests s \<longrightarrow>
            fst (ensureValidToken ev s) = False) \<and>
         (\<forall>e. truthy (refreshToken (authState s)) \<and> expiresAt (authState s) = Some e \<and>
              e \<le> now ev + 300000 \<longrightarrow>
            fst (ensureValidToken ev s) = False \<and>
            requests (snd (ensureValidToken ev s)) = requests s + 1)"
proof -
  have "fst (ensureValidToken ev s) = False \<and>
        requests (snd (ensureValidToken ev s)) = requests s + 1"
    if "truthy (refreshToken (authState s))" "expiresAt (authState s) = Some e"
      "e \<le> now ev + 300000" for e
    using ensureValidToken_attempt_failed [OF that assms] by simp
  then show ?thesis
    using ensureValidToken_failed [OF assms] by auto
qed

theorem failed_refresh_keeps_tokens_witness:
  "refreshGrant rejectingEnv (refreshToken (authState loggedIn)) = Inl InvalidGrant \<and>
   requests (snd (ensureValidToken rejectingEnv loggedIn)) \<noteq> requests loggedIn \<and>
   fst (ensureValidToken rejectingEnv loggedIn) = False \<and>
   authState (snd (ensureValidToken rejectingEnv loggedIn)) = savedTokens"
proof -
  have fails: "refreshGrant rejectingEnv (refreshToken (authState loggedIn)) = Inl InvalidGrant"
    by (simp add: rejectingEnv_def)
  have posted: "requests (snd (ensureValidToken rejectingEnv loggedIn)) \<noteq> requests loggedIn"
    by (simp add: ensureValidToken_def rejectingEnv_def loggedIn_def savedTokens_def truthy_def)
  from failed_refresh_keeps_tokens [OF fails] fails posted
  show ?thesis by (simp add: loggedIn_def)
qed

text \<open>
  Claim C5, amended. For every token state whose \<open>expiresAt\<close> is more than five minutes in
  the future, \<open>ensureValidToken\<close> returns at once, without a request to the token endpoint
  and without changing the state; it returns true exactly when a refresh token is on
  record.
\<close>

theorem fast_path_no_request:
  assumes "expiresAt (authState s) = Some e" and "now ev + 300000 < e"
  shows "snd (ensureValidToken ev s) = s \<and>
         (fst (ensureValidToken ev s) \<longleftrightarrow> truthy (refreshToken (authState s)))"
  using assms by (simp add: ensureValidToken_def)

theorem fast_path_no_request_witness:
  "expiresAt (authState (loggedIn\<lparr>authState := savedTokens\<lparr>expiresAt := Some 5000000\<rparr>\<rparr>))
     = Some 5000000 \<and>
   now rejectingEnv + 300000 < 5000000 \<and>
   ensureValidToken rejectingEnv (loggedIn\<lparr>authState := savedTokens\<lparr>expiresAt := Some 5000000\<rparr>\<rparr>)
     = (True, loggedIn\<lparr>authState := savedTokens\<lparr>expiresAt := Some 5000000\<rparr>\<rparr>)"
proof -
  let ?s = "loggedIn\<lparr>authState := savedTokens\<lparr>expiresAt := Some 5000000\<rparr>\<rparr>"
  have e: "expiresAt (authState ?s) = Some 5000000" by simp
  have t: "now rejectingEnv + 300000 < 5000000" by (simp add: rejectingEnv_def)
  have r: "truthy (refreshToken (authState ?s))" by (simp add: savedTokens_def truthy_def)
  from fast_path_no_request [OF e t] e t r
  show ?thesis by (simp add: prod_eq_iff)
qed

text \<open>
  A state whose access token is valid for long but which holds no refresh token: the
  first test of \<open>ensureValidToken\<close> answers false.
\<close>

theorem no_refresh_token_counterexample:
  "expiresAt (authState withoutRefreshToken) = Some 5000000 \<and>
   now rejectingEnv + 5 * 60 * 1000 < 5000000 \<and>
   ensureValidToken rejectingEnv withoutRefreshToken = (False, withoutRefreshToken)"
  by (simp add: ensureValidToken_def withoutRefreshToken_def rejectingEnv_def truthy_def)

text \<open>
  Claim C6, amended. When the authorization server rejects the stored refresh token as
  permanently invalid, \<open>ensureValidToken\<close> returns false and changes nothing but the count
  of requests: no token is cleared and the flag stays as it was. Every later call posts to
  the token endpoint again.
\<close>

theorem rejected_refresh_token_retried:
  assumes "truthy (refreshToken (authState s))" and "expiresAt (authState s) = Some e"
    and "e \<le> now ev + 300000"
    and "refreshGrant ev (refreshToken (authState s)) = Inl InvalidGrant"
  shows "ensureValidToken ev s = (False, s\<lparr>requests := requests s + 1\<rparr>) \<and>
         (\<forall>ev'. now ev \<le> now ev' \<longrightarrow>
            requests (snd (ensureValidToken ev' (snd (ensureValidToken ev s)))) = requests s + 2)"
proof -
  have first: "ensureValidToken ev s = (False, s\<lparr>requests := requests s + 1\<rparr>)"
    using assms by (rule ensureValidToken_attempt_failed)
  have "requests (snd (ensureValidToken ev' (s\<lparr>requests := requests s + 1\<rparr>))) = requests s + 2"
    if "now ev \<le> now ev'" for ev'
    using assms that
    by (simp add: ensureValidToken_def acceptTokens_def saveTokenData_def Let_def
        split: sum.splits option.splits)
  with first show ?thesis by simp
qed

theorem rejected_refresh_token_retried_witness:
  "truthy (refreshToken (authState loggedIn)) \<and>
   expiresAt (authState loggedIn) = Some 900000 \<and>
   900000 \<le> now rejectingEnv + 300000 \<and>
   refreshGrant rejectingEnv (refreshToken (authState loggedIn)) = Inl InvalidGrant \<and>
   now rejectingEnv \<le> now grantingEnv \<and>
   ensureValidToken rejectingEnv loggedIn = (False, loggedIn\<lparr>requests := 1\<rparr>) \<and>
   requests (snd (ensureValidToken grantingEnv (snd (ensureValidToken rejectingEnv loggedIn)))) = 2"
proof -
  have a: "truthy (refreshToken (authState loggedIn))"
    by (simp add: loggedIn_def savedTokens_def truthy_def)
  have b: "expiresAt (authState loggedIn) = Some 900000"
    by (simp add: loggedIn_def savedTokens_def)
  have c: "900000 \<le> now rejectingEnv + 300000" by (simp add: rejectingEnv_def)
  have d: "refreshGrant rejectingEnv (refreshToken (authState loggedIn)) = Inl InvalidGrant"
    by (simp add: rejectingEnv_def)
  have e: "now rejectingEnv \<le> now grantingEnv" by (simp add: rejectingEnv_def grantingEnv_def)
  note both = rejected_refresh_token_retried [OF a b c d]
  from both have first: "ensureValidToken rejectingEnv loggedIn = (False, loggedIn\<lparr>requests := 1\<rparr>)"
    by (simp add: loggedIn_def)
  from both e have second:
    "requests (snd (ensureValidToken grantingEnv (snd (ensureValidToken rejectingEnv loggedIn)))) =
       requests loggedIn + 2"
    by blast
  have "requests loggedIn + 2 = 2" by (simp add: loggedIn_def)
  with a b c d e first second show ?thesis by simp
qed

text \<open>
  After a rejection with \<open>invalid_grant\<close> the tokens and the flag are still in place, and
  the next call posts a second request.
\<close>

theorem invalid_grant_counterexample:
  "refreshGrant rejectingEnv (refreshToken (authState loggedIn)) = Inl InvalidGrant \<and>
   ensureValidToken rejectingEnv loggedIn = (False, loggedIn\<lparr>requests := 1\<rparr>) \<and>
   authState (loggedIn\<lparr>requests := 1\<rparr>) = savedTokens \<and>
   isAuthenticated savedTokens \<and> refreshToken savedTokens = Some ''r1'' \<and>
   ensureValidToken rejectingEnv (loggedIn\<lparr>requests := 1\<rparr>) = (False, loggedIn\<lparr>requests := 2\<rparr>)"
  by (simp add: ensureValidToken_def rejectingEnv_def loggedIn_def savedTokens_def truthy_def)

lemma acceptTokens_good:
  assumes "goodResponse d" and "acceptTokens ev d s = Some s'"
  shows "authInvariant (nowAfter ev) (authState s')"
  using assms
  by (auto simp: goodResponse_def acceptTokens_def saveTokenData_def authInvariant_def Let_def
      split: option.splits if_splits)

lemma acceptTokens_None: "acceptTokens ev d s = None \<or> (\<exists>s'. acceptTokens ev d s = Some s')"
  by (cases "acceptTokens ev d s") simp_all

lemma ensureValidToken_False:
  "\<not> fst (ensureValidToken ev s) \<Longrightarrow> authState (snd (ensureValidToken ev s)) = authState s"
  by (auto simp: ensureValidToken_def Let_def split: option.splits sum.splits if_splits)

lemma callback_not_200:
  "fst (callback ev code s) \<noteq> 200 \<Longrightarrow> authState (snd (callback ev code s)) = authState s"
  by (auto simp: callback_def Let_def split: option.splits sum.splits if_splits)

text \<open>
  Claim C9, amended. The startup load and the logout leave the token state with the
  invariant holding at the instant of the operation. A login that is answered 200 and a
  refresh that returns true, on a response that carries an access token and a positive
  lifetime, leave it holding at the instant the response was taken over. A refresh that
  returns false and a login that is not answered 200 leave the token state unchanged; the
  flag is not recomputed.
\<close>

theorem token_operations_and_invariant:
  "authInvariant t (authState (loadTokens t stored)) \<and>
   authInvariant t (authState (logout ev s)) \<and>
   (\<forall>c d. code = Some c \<and> c \<noteq> [] \<and> codeGrant ev c = Inr d \<and> goodResponse d \<and>
      fst (callback ev code s) = 200 \<longrightarrow>
      authInvariant (nowAfter ev) (authState (snd (callback ev code s)))) \<and>
   (\<forall>e d. truthy (refreshToken (authState s)) \<and> expiresAt (authState s) = Some e \<and>
      e \<le> now ev + 300000 \<and> refreshGrant ev (refreshToken (authState s)) = Inr d \<and>
      goodResponse d \<and> fst (ensureValidToken ev s) \<longrightarrow>
      authInvariant (nowAfter ev) (authState (snd (ensureValidToken ev s)))) \<and>
   (\<forall>err. refreshGrant ev (refreshToken (authState s)) = Inl err \<longrightarrow>
      authState (snd (ensureValidToken ev s)) = authState s) \<and>
   (\<not> fst (ensureValidToken ev s) \<longrightarrow>
      authState (snd (ensureValidToken ev s)) = authState s) \<and>
   (fst (callback ev code s) \<noteq> 200 \<longrightarrow>
      authState (snd (callback ev code s)) = authState s)"
proof (intro conjI allI impI)
  show "authInvariant t (authState (loadTokens t stored))"
    by (cases stored) (simp_all add: loadTokens_def authInvariant_def noTokens_def truthy_def Let_def)
next
  show "authInvariant t (authState (logout ev s))"
    by (simp add: logout_def authInvariant_def noTokens_def truthy_def Let_def)
next
  fix c d
  assume h: "code = Some c \<and> c \<noteq> [] \<and> codeGrant ev c = Inr d \<and> goodResponse d \<and>
      fst (callback ev code s) = 200"
  then have code: "code = Some c" "c \<noteq> []" "codeGrant ev c = Inr d"
    and good: "goodResponse d" and ok: "fst (callback ev code s) = 200"
    by blast+
  show "authInvariant (nowAfter ev) (authState (snd (callback ev code s)))"
  proof (cases "acceptTokens ev d (s\<lparr>requests := requests s + 1\<rparr>)")
    case None
    with code have "fst (callback ev code s) = 500"
      by (simp add: callback_def Let_def)
    with ok show ?thesis by simp
  next
    case (Some s')
    with code have "snd (callback ev code s) = s'"
      by (simp add: callback_def Let_def)
    with acceptTokens_good [OF good Some] show ?thesis by simp
  qed
next
  fix e d
  assume h: "truthy (refreshToken (authState s)) \<and> expiresAt (authState s) = Some e \<and>
      e \<le> now ev + 300000 \<and> refreshGrant ev (refreshToken (authState s)) = Inr d \<and>
      goodResponse d \<and> fst (ensureValidToken ev s)"
  then have due: "truthy (refreshToken (authState s))" "expiresAt (authState s) = Some e"
      "e \<le> now ev + 300000" "refreshGrant ev (refreshToken (authState s)) = Inr d"
    and good: "goodResponse d" and ok: "fst (ensureValidToken ev s)"
    by blast+
  show "authInvariant (nowAfter ev) (authState (snd (ensureValidToken ev s)))"
  proof (cases "acceptTokens ev d (s\<lparr>requests := requests s + 1\<rparr>)")
    case None
    with due have "\<not> fst (ensureValidToken ev s)"
      by (simp add: ensureValidToken_def Let_def)
    with ok show ?thesis by simp
  next
    case (Some s')
    with due have "snd (ensureValidToken ev s) = s'"
      by (simp add: ensureValidToken_def Let_def)
    with acceptTokens_good [OF good Some] show ?thesis by simp
  qed
next
  fix err
  assume "refreshGrant ev (refreshToken (authState s)) = Inl err"
  from ensureValidToken_failed [OF this]
  show "authState (snd (ensureValidToken ev s)) = authState s"
    by auto
next
  assume "\<not> fst (ensureValidToken ev s)"
  then show "authState (snd (ensureValidToken ev s)) = authState s"
    by (rule ensureValidToken_False)
next
  assume "fst (callback ev code s) \<noteq> 200"
  then show "authState (snd (callback ev code s)) = authState s"
    by (rule callback_not_200)
qed

theorem token_operations_and_invariant_witness:
  "truthy (refreshToken (authState loggedIn)) \<and>
   expiresAt (authState loggedIn) = Some 900000 \<and>
   900000 \<le> now grantingEnv + 300000 \<and>
   goodResponse \<lparr>access_token = Some ''a2'', refresh_token = Some ''r2'', expires_in = Some 3600\<rparr> \<and>
   goodResponse \<lparr>access_token = Some ''a0'', refresh_token = Some ''r0'', expires_in = Some 3600\<rparr> \<and>
   fst (callback grantingEnv (Some ''code'') loggedIn) = 200 \<and>
   fst (ensureValidToken grantingEnv loggedIn) \<and>
   authInvariant 800000 (authState (loadTokens 800000 (Some savedTokens))) \<and>
   authInvariant 800000 (authState (logout grantingEnv loggedIn)) \<and>
   authInvariant (nowAfter grantingEnv) (authState (snd (callback grantingEnv (Some ''code'') loggedIn))) \<and>
   authInvariant (nowAfter grantingEnv) (authState (snd (ensureValidToken grantingEnv loggedIn))) \<and>
   goodResponse endlessResponse \<and>
   \<not> fst (ensureValidToken (grantingEnv\<lparr>refreshGrant := \<lambda>rt. Inr endlessResponse\<rparr>) loggedIn) \<and>
   authState (snd (ensureValidToken (grantingEnv\<lparr>refreshGrant := \<lambda>rt. Inr endlessResponse\<rparr>)
     loggedIn)) = savedTokens"
proof -
  let ?d2 = "\<lparr>access_token = Some ''a2'', refresh_token = Some ''r2'', expires_in = Some 3600\<rparr>"
  let ?d0 = "\<lparr>access_token = Some ''a0'', refresh_token = Some ''r0'', expires_in = Some 3600\<rparr>"
  let ?endless = "grantingEnv\<lparr>refreshGrant := \<lambda>rt. Inr endlessResponse\<rparr>"
  have a: "truthy (refreshToken (authState loggedIn))"
    by (simp add: loggedIn_def savedTokens_def truthy_def)
  have b: "expiresAt (authState loggedIn) = Some 900000"
    by (simp add: loggedIn_def savedTokens_def)
  have c: "900000 \<le> now grantingEnv + 300000" by (simp add: grantingEnv_def)
  have g2: "goodResponse ?d2" and g0: "goodResponse ?d0" and g3: "goodResponse endlessResponse"
    by (simp_all add: goodResponse_def truthy_def endlessResponse_def)
  have r: "refreshGrant grantingEnv (refreshToken (authState loggedIn)) = Inr ?d2"
    and k: "codeGrant grantingEnv ''code'' = Inr ?d0"
    by (simp_all add: grantingEnv_def)
  have ok: "fst (callback grantingEnv (Some ''code'') loggedIn) = 200"
    by (simp add: callback_def acceptTokens_def maxTime_def grantingEnv_def Let_def)
  have refreshed: "fst (ensureValidToken grantingEnv loggedIn)"
    by (simp add: ensureValidToken_def acceptTokens_def maxTime_def grantingEnv_def loggedIn_def
        savedTokens_def truthy_def Let_def)
  have refused: "\<not> fst (ensureValidToken ?endless loggedIn)"
    by (simp add: ensureValidToken_def acceptTokens_def maxTime_def grantingEnv_def loggedIn_def
        savedTokens_def truthy_def endlessResponse_def Let_def)
  note all = token_operations_and_invariant
    [of 800000 "Some savedTokens" grantingEnv loggedIn "Some ''code''"]
  from all have "authInvariant 800000 (authState (loadTokens 800000 (Some savedTokens)))"
    and "authInvariant 800000 (authState (logout grantingEnv loggedIn))"
    by blast+
  moreover from all k g0 ok
  have "authInvariant (nowAfter grantingEnv)
          (authState (snd (callback grantingEnv (Some ''code'') loggedIn)))"
    by blast
  moreover from all a b c r g2 refreshed
  have "authInvariant (nowAfter grantingEnv)
          (authState (snd (ensureValidToken grantingEnv loggedIn)))"
    by blast
  moreover from token_operations_and_invariant
    [of 800000 "Some savedTokens" ?endless loggedIn "Some ''code''"] refused
  have "authState (snd (ensureValidToken ?endless loggedIn)) = authState loggedIn"
    by blast
  then have "authState (snd (ensureValidToken ?endless loggedIn)) = savedTokens"
    by (simp add: loggedIn_def)
  ultimately show ?thesis using a b c g2 g0 g3 ok refreshed refused by simp
qed

text \<open>
  The state loaded at 800000 satisfies the invariant then. At 1000000 the access token has
  expired and the refresh fails: the flag is still set although \<open>expiresAt\<close> has passed.
\<close>

theorem stale_flag_counterexample:
  "loadTokens 800000 (Some savedTokens) = loggedIn \<and>
   authInvariant 800000 (authState loggedIn) \<and>
   ensureValidToken rejectingEnv loggedIn = (False, loggedIn\<lparr>requests := 1\<rparr>) \<and>
   isAuthenticated (authState (loggedIn\<lparr>requests := 1\<rparr>)) \<and>
   expiresAt (authState (loggedIn\<lparr>requests := 1\<rparr>)) = Some 900000 \<and>
   now rejectingEnv = 1000000 \<and>
   \<not> authInvariant (now rejectingEnv) (authState (loggedIn\<lparr>requests := 1\<rparr>))"
  by (simp add: loggedIn_loaded)
     (simp add: ensureValidToken_def rejectingEnv_def loggedIn_def savedTokens_def truthy_def
        authInvariant_def)

section \<open>Properties of the strategy decision\<close>

text \<open>
  Claim C2, amended. When the deviation is at most 0.005 the action is BUY if the current
  price is strictly greater than the mean of the last ten points and SELL otherwise, the
  order price is the current price and the quantity is the floor of the investment amount
  divided by the current price. In every other case, that is when the deviation is greater
  than 0.005 or is not a number, the decision is HOLD with no order fields.
\<close>

theorem decide_by_deviation:
  "(js_gt (mcpDeviation mcp currentPrice) (Fin (5 / 1000)) \<longrightarrow>
      decide mcp currentPrice dataPoints investmentAmount = holdDecision \<and>
      strategyMCP symb mcp currentPrice dataPoints investmentAmount = Hold) \<and>
   (\<not> js_le (mcpDeviation mcp currentPrice) (Fin (5 / 1000)) \<longrightarrow>
      decide mcp currentPrice dataPoints investmentAmount = holdDecision \<and>
      strategyMCP symb mcp currentPrice dataPoints investmentAmount = Hold) \<and>
   (js_le (mcpDeviation mcp currentPrice) (Fin (5 / 1000)) \<longrightarrow>
      decide mcp currentPrice dataPoints investmentAmount =
        \<lparr>action = Some (if js_gt currentPrice (avgRecentPrice dataPoints) then BUY else SELL),
         orderPrice = Some currentPrice,
         quantity = Some (js_floor (js_div investmentAmount currentPrice))\<rparr>)"
proof -
  have "\<not> js_le x y" if "js_gt x y" for x y
    using that by (cases x; cases y) simp_all
  then show ?thesis
    by (auto simp: decide_def strategyMCP_def holdDecision_def Let_def)
qed

theorem decide_by_deviation_witness:
  "js_le (mcpDeviation niftyPivot (Fin 17870)) (Fin (5 / 1000)) \<and>
   decide niftyPivot (Fin 17870) niftySeries (Fin 100000) =
     \<lparr>action = Some BUY, orderPrice = Some (Fin 17870), quantity = Some (Fin 5)\<rparr> \<and>
   js_gt (mcpDeviation niftyPivot (Fin 18000)) (Fin (5 / 1000)) \<and>
   decide niftyPivot (Fin 18000) niftySeries (Fin 100000) = holdDecision"
proof -
  have near: "js_le (mcpDeviation niftyPivot (Fin 17870)) (Fin (5 / 1000))"
    by (simp add: mcpDeviation_def niftyPivot_def js_sub_def)
  have far: "js_gt (mcpDeviation niftyPivot (Fin 18000)) (Fin (5 / 1000))"
    by (simp add: mcpDeviation_def niftyPivot_def js_sub_def)
  have avg: "js_gt (Fin 17870) (avgRecentPrice niftySeries)"
    by (simp add: avgRecentPrice_def recentPoints_def niftySeries_def sumPrices_def)
  have qty: "js_floor (js_div (Fin 100000) (Fin 17870)) = Fin 5"
    by simp
  from decide_by_deviation [of niftyPivot "Fin 17870" niftySeries "Fin 100000"] near avg qty
  have "decide niftyPivot (Fin 17870) niftySeries (Fin 100000) =
     \<lparr>action = Some BUY, orderPrice = Some (Fin 17870), quantity = Some (Fin 5)\<rparr>"
    by simp
  moreover from decide_by_deviation [of niftyPivot "Fin 18000" niftySeries "Fin 100000"] far
  have "decide niftyPivot (Fin 18000) niftySeries (Fin 100000) = holdDecision"
    by simp
  ultimately show ?thesis using near far by simp
qed

text \<open>
  For the pivot of the series 1, 0 and a current price of 0 the deviation is \<open>0 / 0\<close>: it is
  not greater than 0.005, and yet the decision has no action.
\<close>

theorem undefined_deviation_counterexample:
  "calculateMCP [\<lparr>timestamp = 0, price = Fin 1\<rparr>, \<lparr>timestamp = 1, price = Fin 0\<rparr>] = Some zeroPivot \<and>
   mcpDeviation zeroPivot (Fin 0) = NaN \<and>
   \<not> js_gt (mcpDeviation zeroPivot (Fin 0)) (Fin (5 / 1000)) \<and>
   decide zeroPivot (Fin 0) [\<lparr>timestamp = 0, price = Fin 1\<rparr>, \<lparr>timestamp = 1, price = Fin 0\<rparr>]
     (Fin 1000) = \<lparr>action = None, orderPrice = None, quantity = None\<rparr>"
  by (simp add: zeroPivot_def mcpDeviation_def decide_def js_sub_def eval_defs)

text \<open>
  Claim C8. Whenever the decision has an action and the computed quantity is 0, the handler
  answers with the error for an investment amount that is too small and places no order;
  every order that is placed carries the computed quantity, which is greater than 0.
\<close>

theorem zero_quantity_rejected:
  "(action (decide mcp currentPrice dataPoints investmentAmount) = Some a \<and>
    quantity (decide mcp currentPrice dataPoints investmentAmount) = Some (Fin 0) \<longrightarrow>
      strategyMCP symb mcp currentPrice dataPoints investmentAmount = TooSmall) \<and>
   (strategyMCP symb mcp currentPrice dataPoints investmentAmount = PlaceOrder req \<longrightarrow>
      quantity (decide mcp currentPrice dataPoints investmentAmount) = Some (order_quantity req) \<and>
      js_gt (order_quantity req) (Fin 0) \<and> order_quantity req \<noteq> Fin 0)"
  by (auto simp: strategyMCP_def Let_def split: option.splits if_splits)

theorem zero_quantity_rejected_witness:
  "action (decide niftyPivot (Fin 17870) niftySeries (Fin 10000)) = Some BUY \<and>
   quantity (decide niftyPivot (Fin 17870) niftySeries (Fin 10000)) = Some (Fin 0) \<and>
   strategyMCP ''NIFTY'' niftyPivot (Fin 17870) niftySeries (Fin 10000) = TooSmall \<and>
   (\<exists>req. strategyMCP ''NIFTY'' niftyPivot (Fin 17870) niftySeries (Fin 100000) = PlaceOrder req \<and>
      order_quantity req = Fin 5)"
proof -
  have near: "js_le (mcpDeviation niftyPivot (Fin 17870)) (Fin (5 / 1000))"
    by (simp add: mcpDeviation_def niftyPivot_def js_sub_def)
  have avg: "js_gt (Fin 17870) (avgRecentPrice niftySeries)"
    by (simp add: avgRecentPrice_def recentPoints_def niftySeries_def sumPrices_def)
  have act: "action (decide niftyPivot (Fin 17870) niftySeries (Fin 10000)) = Some BUY"
    using near avg by (simp add: decide_def)
  have qty: "quantity (decide niftyPivot (Fin 17870) niftySeries (Fin 10000)) = Some (Fin 0)"
    using near by (simp add: decide_def)
  have placed: "\<exists>req. strategyMCP ''NIFTY'' niftyPivot (Fin 17870) niftySeries (Fin 100000)
      = PlaceOrder req \<and> order_quantity req = Fin 5"
    using near avg by (simp add: strategyMCP_def decide_def)
  from zero_quantity_rejected [of niftyPivot "Fin 17870" niftySeries "Fin 10000" BUY "''NIFTY''"]
    act qty
  have "strategyMCP ''NIFTY'' niftyPivot (Fin 17870) niftySeries (Fin 10000) = TooSmall"
    by simp
  with act qty placed show ?thesis by simp
qed

end
